theory Spec2Isabelle
  imports Main "HOL-Library.Word"
begin

unbundle bit_operations_syntax

section \<open>JavaScript numbers and typed arrays\<close>

text \<open>
  Every number the demuxer computes is an integer far below \<open>2 ^ 53\<close>, so a JavaScript
  Number is an \<open>int\<close> here. The bitwise operators convert their operands to 32-bit
  integers first: \<open><<\<close>, \<open>>>\<close>, \<open>|\<close> and \<open>&\<close> answer a signed 32-bit value, \<open>>>>\<close> an
  unsigned one.
\<close>

type_synonym byte = "8 word"
type_synonym bytes = "byte list"

definition to_int32 :: "int \<Rightarrow> int" where
  "to_int32 k = signed_take_bit 31 k"

definition to_uint32 :: "int \<Rightarrow> int" where
  "to_uint32 k = take_bit 32 k"

definition js_shl :: "int \<Rightarrow> nat \<Rightarrow> int" where
  "js_shl a n = to_int32 (push_bit (n mod 32) a)"

definition js_sar :: "int \<Rightarrow> nat \<Rightarrow> int" where
  "js_sar a n = drop_bit (n mod 32) (to_int32 a)"

definition js_shr :: "int \<Rightarrow> nat \<Rightarrow> int" where
  "js_shr a n = drop_bit (n mod 32) (to_uint32 a)"

definition js_or :: "int \<Rightarrow> int \<Rightarrow> int" where
  "js_or a b = to_int32 a OR to_int32 b"

definition js_and :: "int \<Rightarrow> int \<Rightarrow> int" where
  "js_and a b = to_int32 a AND to_int32 b"

text \<open>
  \<open>data[i]\<close> on a \<open>Uint8Array\<close>: the byte, or \<open>undefined\<close> past the end. \<open>u8\<close> is the
  read where \<open>undefined\<close> counts as 0: as the operand of a bitwise operator, under
  \<open>|| 0\<close>, and where the index is known to be in range.
\<close>

definition at :: "bytes \<Rightarrow> nat \<Rightarrow> int option" where
  "at data i = (if i < length data then Some (uint (data ! i)) else None)"

definition u8 :: "bytes \<Rightarrow> nat \<Rightarrow> int" where
  "u8 data i = (case at data i of None \<Rightarrow> 0 | Some b \<Rightarrow> b)"

text \<open>\<open>data.subarray(begin, end)\<close> and \<open>data.subarray(begin)\<close>; both clamp to the array.\<close>

definition subarray :: "bytes \<Rightarrow> nat \<Rightarrow> nat \<Rightarrow> bytes" where
  "subarray data b e = take (e - b) (drop b data)"

definition subarray_from :: "bytes \<Rightarrow> nat \<Rightarrow> bytes" where
  "subarray_from data b = drop b data"

text \<open>\<open>concatUint8Array\<close> of utils/index.js, at its one call site (two arrays).\<close>

definition concatUint8Array :: "bytes \<Rightarrow> bytes \<Rightarrow> bytes" where
  "concatUint8Array a b = a @ b"

text \<open>\<open>readBig32\<close> of utils/index.js.\<close>

definition readBig32 :: "bytes \<Rightarrow> nat \<Rightarrow> int" where
  "readBig32 data i =
     js_shr (js_shl (u8 data i) 24) 0 + js_shl (u8 data (i + 1)) 16
       + js_shl (u8 data (i + 2)) 8 + u8 data (i + 3)"

section \<open>Tracks and samples\<close>

datatype VideoCodecType = AVC | HEVC

datatype AudioCodecType = AAC | G711PCMA | G711PCMU

text \<open>What \<open>logger.warn\<close> is called with.\<close>

datatype warning =
    InvalidTagType int
  | InvalidPrevTagSize int int
  | UnsupportedSoundFormat int
  | CannotParseAudioSpecificConfig bytes
  | UnknownAACPacketType "int option"
  | UnsupportedCodecId int
  | CannotParseDecoderConfigurationRecord bool bytes
  | CannotParseNALUs bytes
  | UnknownAVCPacketType int

record VideoSample =
  vs_pts :: int
  vs_dts :: int
  vs_units :: "bytes list"
  vs_keyframe :: bool
  vs_gopId :: int

record AudioSample =
  as_pts :: int
  as_data :: bytes

text \<open>
  The codec of an audio track is the string the AAC parser answers, or the string constant
  of an \<open>AudioCodecType\<close> (whose text is not in the sources).
\<close>

datatype audio_codec = CodecString string | CodecOfType AudioCodecType

record VideoTrack =
  v_present :: bool
  v_timescale :: int
  v_formatTimescale :: int
  v_samples :: "VideoSample list"
  v_warnings :: "warning list"
  v_codecType :: "VideoCodecType option"
  v_codec :: string
  v_width :: int
  v_height :: int
  v_sarRatio :: "int list"
  v_fpsNum :: int
  v_fpsDen :: int
  v_sps :: "bytes list"
  v_pps :: "bytes list"
  v_vps :: "bytes list"
  v_nalUnitSize :: int
  v_hvcC :: "bytes option"

record AudioTrack =
  a_present :: bool
  a_timescale :: int
  a_formatTimescale :: int
  a_samples :: "AudioSample list"
  a_warnings :: "warning list"
  a_codecType :: "AudioCodecType option"
  a_codec :: audio_codec
  a_sampleRate :: int
  a_sampleSize :: int
  a_channelCount :: int
  a_config :: bytes
  a_objectType :: int
  a_sampleRateIndex :: int

record ('s, 'a) MetadataTrack =
  m_timescale :: int
  m_seiSamples :: "('s \<times> int) list"
  m_flvScriptSamples :: "('a \<times> int) list"

text \<open>
  Modelled from the spec: the track classes (\<open>VideoTrack\<close>, \<open>AudioTrack\<close>,
  \<open>MetadataTrack\<close>, imported from \<open>../model\<close>) are not among the sources. A new track has
  no samples, no parameter sets and no codec; a reset restores "parameter sets, codec
  fields, sample lists, warnings" (section 4.1, rule 2) and leaves \<open>present\<close> and the
  timescales, which the spec lists apart (section 3), as they are. The spec names no
  initial \<open>nalUnitSize\<close>; 4 is taken.
\<close>

definition new_VideoTrack :: VideoTrack where
  "new_VideoTrack =
     \<lparr>v_present = False, v_timescale = 0, v_formatTimescale = 0, v_samples = [],
      v_warnings = [], v_codecType = None, v_codec = [], v_width = 0, v_height = 0,
      v_sarRatio = [], v_fpsNum = 0, v_fpsDen = 0, v_sps = [], v_pps = [], v_vps = [],
      v_nalUnitSize = 4, v_hvcC = None\<rparr>"

definition new_AudioTrack :: AudioTrack where
  "new_AudioTrack =
     \<lparr>a_present = False, a_timescale = 0, a_formatTimescale = 0, a_samples = [],
      a_warnings = [], a_codecType = None, a_codec = CodecString [], a_sampleRate = 0,
      a_sampleSize = 0, a_channelCount = 0, a_config = [], a_objectType = 0,
      a_sampleRateIndex = 0\<rparr>"

definition new_MetadataTrack :: "('s, 'a) MetadataTrack" where
  "new_MetadataTrack = \<lparr>m_timescale = 0, m_seiSamples = [], m_flvScriptSamples = []\<rparr>"

definition VideoTrack_reset :: "VideoTrack \<Rightarrow> VideoTrack" where
  "VideoTrack_reset t =
     new_VideoTrack\<lparr>v_present := v_present t, v_timescale := v_timescale t,
       v_formatTimescale := v_formatTimescale t\<rparr>"

definition AudioTrack_reset :: "AudioTrack \<Rightarrow> AudioTrack" where
  "AudioTrack_reset t =
     new_AudioTrack\<lparr>a_present := a_present t, a_timescale := a_timescale t,
       a_formatTimescale := a_formatTimescale t\<rparr>"

definition MetadataTrack_reset :: "('s, 'a) MetadataTrack \<Rightarrow> ('s, 'a) MetadataTrack" where
  "MetadataTrack_reset t = new_MetadataTrack\<lparr>m_timescale := m_timescale t\<rparr>"

text \<open>
  Modelled from the spec: \<open>exist()\<close> and \<open>hasSample()\<close> of the track classes are not among
  the sources. Section 4.1: "If a track received samples but is not marked present in the
  FLV header, reset that track".
\<close>

definition VideoTrack_exist :: "VideoTrack \<Rightarrow> bool" where
  "VideoTrack_exist t = v_present t"

definition VideoTrack_hasSample :: "VideoTrack \<Rightarrow> bool" where
  "VideoTrack_hasSample t = (v_samples t \<noteq> [])"

definition AudioTrack_exist :: "AudioTrack \<Rightarrow> bool" where
  "AudioTrack_exist t = a_present t"

definition AudioTrack_hasSample :: "AudioTrack \<Rightarrow> bool" where
  "AudioTrack_hasSample t = (a_samples t \<noteq> [])"

section \<open>The collaborators\<close>

text \<open>
  The codec parsers (\<open>AAC\<close>, \<open>AVC\<close>, \<open>HEVC\<close>, \<open>NALu\<close> of \<open>../codec\<close>) and \<open>AMF\<close> are not
  among the sources: the demuxer is a function of them, with the interfaces of section 6
  of the spec. \<open>'s\<close> is what \<open>NALu.parseSEI\<close> answers and \<open>'a\<close> what \<open>AMF.parse\<close> answers.
\<close>

record sps_info =
  sps_codec :: string
  sps_width :: int
  sps_height :: int
  sps_sarRatio :: "int list"
  sps_fpsNum :: int
  sps_fpsDen :: int

record dcr_result =
  r_hvcC :: "bytes option"
  r_sps :: "sps_info option"
  r_ppsArr :: "bytes list"
  r_spsArr :: "bytes list"
  r_vpsArr :: "bytes list option"
  r_nalUnitSize :: int

record asc_result =
  c_codec :: string
  c_channelCount :: int
  c_sampleRate :: int
  c_config :: bytes
  c_objectType :: int
  c_samplingFrequencyIndex :: int

record ('s, 'a) codecs =
  parseAudioSpecificConfig :: "bytes \<Rightarrow> asc_result option"
  parseAVCDecoderConfigurationRecord :: "bytes \<Rightarrow> dcr_result option"
  parseHEVCDecoderConfigurationRecord :: "bytes \<Rightarrow> dcr_result option"
  parseAvcC :: "bytes \<Rightarrow> int \<Rightarrow> bytes list"
  removeEPB :: "bytes \<Rightarrow> bytes"
  parseSEI :: "bytes \<Rightarrow> bool \<Rightarrow> 's"
  AMF_parse :: "bytes \<Rightarrow> 'a"

section \<open>The demuxer\<close>

record ('s, 'a) FlvDemuxer =
  headerParsed :: bool
  remainingData :: "bytes option"
  gopId :: int
  needAddMetaBeforeKeyFrameNal :: bool
  videoTrack :: VideoTrack
  audioTrack :: AudioTrack
  metadataTrack :: "('s, 'a) MetadataTrack"
  logged :: "warning list"

datatype error = InvalidFlvFile

definition new_FlvDemuxer :: "('s, 'a) FlvDemuxer" where
  "new_FlvDemuxer =
     \<lparr>headerParsed = False, remainingData = None, gopId = 0,
      needAddMetaBeforeKeyFrameNal = True, videoTrack = new_VideoTrack,
      audioTrack = new_AudioTrack, metadataTrack = new_MetadataTrack, logged = []\<rparr>"

definition warn :: "warning \<Rightarrow> ('s, 'a) FlvDemuxer \<Rightarrow> ('s, 'a) FlvDemuxer" where
  "warn w st = st\<lparr>logged := logged st @ [w]\<rparr>"

definition AUDIO_RATE :: "int list" where
  "AUDIO_RATE = [5500, 11000, 22000, 44000]"

subsection \<open>probe\<close>

definition probe :: "bytes \<Rightarrow> bool" where
  "probe data =
     (if at data 0 \<noteq> Some 0x46 \<or> at data 1 \<noteq> Some 0x4C \<or> at data 2 \<noteq> Some 0x56
         \<or> at data 3 \<noteq> Some 0x01
      then False
      else readBig32 data 5 \<ge> 9)"

subsection \<open>Audio tags\<close>

definition parseG711 ::
  "bytes \<Rightarrow> int \<Rightarrow> int \<Rightarrow> ('s, 'a) FlvDemuxer \<Rightarrow> ('s, 'a) FlvDemuxer" where
  "parseG711 data pts format st =
     (let track = audioTrack st;
          codecType = (if format = 7 then G711PCMA else G711PCMU);
          track = track\<lparr>a_codecType := Some codecType\<rparr>;
          track = track\<lparr>a_sampleRate := 8000\<rparr>;
          track = track\<lparr>a_codec := CodecOfType codecType\<rparr>;
          track = track\<lparr>a_samples :=
                    a_samples track @ [\<lparr>as_pts = pts, as_data = subarray_from data 1\<rparr>]\<rparr>
      in st\<lparr>audioTrack := track\<rparr>)"

text \<open>
  \<open>pts\<close> is the tag's timestamp, a number at the only call site, so the test
  \<open>pts === undefined || pts === null\<close> of the raw-frame branch never holds.
\<close>

definition parseAac ::
  "('s, 'a) codecs \<Rightarrow> bytes \<Rightarrow> int \<Rightarrow> ('s, 'a) FlvDemuxer \<Rightarrow> ('s, 'a) FlvDemuxer" where
  "parseAac K data pts st =
     (let track = (audioTrack st)\<lparr>a_codecType := Some AAC\<rparr> in
      if at data 1 = Some 0 then
        (case parseAudioSpecificConfig K (subarray_from data 2) of
           Some ret \<Rightarrow>
             st\<lparr>audioTrack := track\<lparr>a_codec := CodecString (c_codec ret),
                   a_channelCount := c_channelCount ret,
                   a_sampleRate := c_sampleRate ret,
                   a_config := c_config ret,
                   a_objectType := c_objectType ret,
                   a_sampleRateIndex := c_samplingFrequencyIndex ret\<rparr>\<rparr>
         | None \<Rightarrow>
             warn (CannotParseAudioSpecificConfig data)
               (st\<lparr>audioTrack := AudioTrack_reset track\<rparr>))
      else if at data 1 = Some 1 then
        st\<lparr>audioTrack := track\<lparr>a_samples :=
              a_samples track @ [\<lparr>as_pts = pts, as_data = subarray_from data 2\<rparr>]\<rparr>\<rparr>
      else warn (UnknownAACPacketType (at data 1)) (st\<lparr>audioTrack := track\<rparr>))"

definition parseAudio ::
  "('s, 'a) codecs \<Rightarrow> bytes \<Rightarrow> int \<Rightarrow> ('s, 'a) FlvDemuxer \<Rightarrow> ('s, 'a) FlvDemuxer" where
  "parseAudio K data pts st =
     (if length data = 0 then st
      else
        let format = js_shr (js_and (u8 data 0) 0xf0) 4;
            track = audioTrack st
        in
        if format \<noteq> 10 \<and> format \<noteq> 7 \<and> format \<noteq> 8 then
          (warn (UnsupportedSoundFormat format) st)\<lparr>audioTrack := AudioTrack_reset track\<rparr>
        else
          let st1 =
            (if format \<noteq> 10 then
               let soundRate = js_sar (js_and (u8 data 0) 0x0c) 2;
                   soundSize = js_sar (js_and (u8 data 0) 0x02) 1;
                   soundType = js_and (u8 data 0) 0x01
               in st\<lparr>audioTrack := track\<lparr>a_sampleRate := AUDIO_RATE ! nat soundRate,
                       a_sampleSize := (if soundSize \<noteq> 0 then 16 else 8),
                       a_channelCount := soundType + 1\<rparr>\<rparr>
             else st)
          in
          if format = 10 then parseAac K data pts st1
          else parseG711 data pts format st1)"

subsection \<open>Video tags\<close>

text \<open>\<open>array.filter(Boolean)\<close> over byte arrays and \<open>undefined\<close>: a byte array is truthy.\<close>

fun filter_Boolean :: "'x option list \<Rightarrow> 'x list" where
  "filter_Boolean [] = []"
| "filter_Boolean (None # xs) = filter_Boolean xs"
| "filter_Boolean (Some x # xs) = x # filter_Boolean xs"

text \<open>\<open>array[0]\<close> on an array of byte arrays: \<open>undefined\<close> when the array is empty.\<close>

definition first :: "'x list \<Rightarrow> 'x option" where
  "first xs = (case xs of [] \<Rightarrow> None | x # _ \<Rightarrow> Some x)"

definition hevc_nal_type :: "bytes \<Rightarrow> int" where
  "hevc_nal_type x = js_and (js_shr (u8 x 0) 1) 0x3f"

definition avc_nal_type :: "bytes \<Rightarrow> int" where
  "avc_nal_type x = js_and (u8 x 0) 0x1f"

definition checkAddMetaNalToUnits ::
  "bool \<Rightarrow> bytes list \<Rightarrow> VideoTrack \<Rightarrow> ('s, 'a) FlvDemuxer
     \<Rightarrow> bytes list \<times> ('s, 'a) FlvDemuxer" where
  "checkAddMetaNalToUnits hevc units track st =
     (if \<not> hevc \<or> \<not> needAddMetaBeforeKeyFrameNal st then
        (units, st\<lparr>needAddMetaBeforeKeyFrameNal := False\<rparr>)
      else
        let nalTypes = map hevc_nal_type units in
        if 32 \<in> set nalTypes then
          (units, st\<lparr>needAddMetaBeforeKeyFrameNal := False\<rparr>)
        else
          let units1 = first (v_pps track) # map Some units;
              units2 = first (v_sps track) # units1;
              units3 = first (v_vps track) # units2
          in (filter_Boolean units3, st))"

text \<open>
  One round of the \<open>units.forEach\<close> of \<open>_parseVideo\<close>: the sample's keyframe flag and the
  SEI samples of the metadata track, before and after the unit.
\<close>

definition scan_unit ::
  "('s, 'a) codecs \<Rightarrow> bool \<Rightarrow> int \<Rightarrow> bool \<times> ('s \<times> int) list \<Rightarrow> bytes
     \<Rightarrow> bool \<times> ('s \<times> int) list" where
  "scan_unit K isHevc pts acc unit =
     (let type = (if isHevc then hevc_nal_type unit else avc_nal_type unit);
          keyframe = fst acc;
          seiSamples = snd acc
      in
      if type = 5 \<or> type = 16 \<or> type = 17 \<or> type = 18 \<or> type = 19 \<or> type = 20
          \<or> type = 21 \<or> type = 22 \<or> type = 23 then
        (if (\<not> isHevc \<and> type \<noteq> 5) \<or> (isHevc \<and> type = 5) then acc
         else (True, seiSamples))
      else if type = 6 \<or> type = 39 \<or> type = 40 then
        (if (\<not> isHevc \<and> type \<noteq> 6) \<or> (isHevc \<and> type = 6) then acc
         else (keyframe, seiSamples @ [(parseSEI K (removeEPB K unit) isHevc, pts)]))
      else acc)"

definition video_cts :: "bytes \<Rightarrow> int" where
  "video_cts data =
     js_sar (js_shl (js_or (js_or (js_shl (u8 data 2) 16) (js_shl (u8 data 3) 8)) (u8 data 4)) 8) 8"

text \<open>Lines 293 to 308: a parsed DecoderConfigurationRecord is stored in the track.\<close>

definition storeDecoderConfigurationRecord :: "dcr_result \<Rightarrow> VideoTrack \<Rightarrow> VideoTrack" where
  "storeDecoderConfigurationRecord ret track =
     (let track = (case r_hvcC ret of
                     Some h \<Rightarrow>
                       track\<lparr>v_hvcC := (case v_hvcC track of Some h0 \<Rightarrow> Some h0
                                         | None \<Rightarrow> Some h)\<rparr>
                   | None \<Rightarrow> track);
          track = (case r_sps ret of
                     Some sps \<Rightarrow>
                       track\<lparr>v_codec := sps_codec sps, v_width := sps_width sps,
                         v_height := sps_height sps, v_sarRatio := sps_sarRatio sps,
                         v_fpsNum := sps_fpsNum sps, v_fpsDen := sps_fpsDen sps\<rparr>
                   | None \<Rightarrow> track);
          track = (if length (r_spsArr ret) \<noteq> 0
                   then track\<lparr>v_sps := r_spsArr ret\<rparr> else track);
          track = (if length (r_ppsArr ret) \<noteq> 0
                   then track\<lparr>v_pps := r_ppsArr ret\<rparr> else track);
          track = (case r_vpsArr ret of
                     Some vpsArr \<Rightarrow>
                       if length vpsArr \<noteq> 0 then track\<lparr>v_vps := vpsArr\<rparr> else track
                   | None \<Rightarrow> track);
          track = (if r_nalUnitSize ret \<noteq> 0
                   then track\<lparr>v_nalUnitSize := r_nalUnitSize ret\<rparr> else track)
      in track)"

text \<open>
  Lines 313 to 358: the NALU payload of a video tag. The sample is pushed before its
  keyframe flag and \<open>gopId\<close> are set, by reference; the track holds it as it is in the end.
\<close>

definition parseNALUs ::
  "('s, 'a) codecs \<Rightarrow> bool \<Rightarrow> int \<Rightarrow> bytes \<Rightarrow> int \<Rightarrow> int \<Rightarrow> ('s, 'a) FlvDemuxer
     \<Rightarrow> ('s, 'a) FlvDemuxer" where
  "parseNALUs K isHevc frameType data dts cts st =
     (let track = videoTrack st;
          units = parseAvcC K (subarray_from data 5) (v_nalUnitSize track);
          (units, st) = checkAddMetaNalToUnits isHevc units track st
      in
      if length units \<noteq> 0 then
        let (keyframe, seiSamples) =
              foldl (scan_unit K isHevc (dts + cts))
                (frameType = 1, m_seiSamples (metadataTrack st)) units;
            st = st\<lparr>metadataTrack := (metadataTrack st)\<lparr>m_seiSamples := seiSamples\<rparr>\<rparr>;
            st = (if keyframe then st\<lparr>gopId := gopId st + 1\<rparr> else st);
            sample = \<lparr>vs_pts = dts + cts, vs_dts = dts, vs_units = units,
                      vs_keyframe = keyframe, vs_gopId = gopId st\<rparr>
        in st\<lparr>videoTrack := track\<lparr>v_samples := v_samples track @ [sample]\<rparr>\<rparr>
      else warn (CannotParseNALUs data) st)"

definition parseVideo ::
  "('s, 'a) codecs \<Rightarrow> bytes \<Rightarrow> int \<Rightarrow> ('s, 'a) FlvDemuxer \<Rightarrow> ('s, 'a) FlvDemuxer" where
  "parseVideo K data dts st =
     (if length data < 6 then st
      else
        let frameType = js_shr (js_and (u8 data 0) 0xf0) 4;
            codecId = js_and (u8 data 0) 0x0f;
            track = videoTrack st
        in
        if codecId \<noteq> 7 \<and> codecId \<noteq> 12 then
          warn (UnsupportedCodecId codecId) (st\<lparr>videoTrack := VideoTrack_reset track\<rparr>)
        else
          let isHevc = (codecId = 12);
              track = track\<lparr>v_codecType := Some (if isHevc then HEVC else AVC)\<rparr>;
              st = st\<lparr>videoTrack := track\<rparr>;
              packetType = u8 data 1;
              cts = video_cts data
          in
          if packetType = 0 then
            (let configData = subarray_from data 5 in
             case (if isHevc then parseHEVCDecoderConfigurationRecord K configData
                   else parseAVCDecoderConfigurationRecord K configData) of
               Some ret \<Rightarrow> st\<lparr>videoTrack := storeDecoderConfigurationRecord ret track\<rparr>
             | None \<Rightarrow> warn (CannotParseDecoderConfigurationRecord isHevc data) st)
          else if packetType = 1 then parseNALUs K isHevc frameType data dts cts st
          else if packetType = 2 then st
          else warn (UnknownAVCPacketType packetType) st)"

subsection \<open>Script tags\<close>

definition parseScript ::
  "('s, 'a) codecs \<Rightarrow> bytes \<Rightarrow> int \<Rightarrow> ('s, 'a) FlvDemuxer \<Rightarrow> ('s, 'a) FlvDemuxer" where
  "parseScript K data pts st =
     st\<lparr>metadataTrack := (metadataTrack st)\<lparr>m_flvScriptSamples :=
           m_flvScriptSamples (metadataTrack st) @ [(AMF_parse K data, pts)]\<rparr>\<rparr>"

subsection \<open>demux\<close>

text \<open>The tag header fields the main loop reads at \<open>offset\<close>.\<close>

definition tag_dataSize :: "bytes \<Rightarrow> nat \<Rightarrow> int" where
  "tag_dataSize data offset =
     js_or (js_or (js_shl (u8 data (offset + 1)) 16) (js_shl (u8 data (offset + 2)) 8))
       (u8 data (offset + 3))"

definition tag_timestamp :: "bytes \<Rightarrow> nat \<Rightarrow> int" where
  "tag_timestamp data offset =
     js_shr (js_shl (u8 data (offset + 7)) 24) 0 + js_shl (u8 data (offset + 4)) 16
       + js_shl (u8 data (offset + 5)) 8 + u8 data (offset + 6)"

definition dispatch_tag ::
  "('s, 'a) codecs \<Rightarrow> int \<Rightarrow> bytes \<Rightarrow> int \<Rightarrow> ('s, 'a) FlvDemuxer \<Rightarrow> ('s, 'a) FlvDemuxer" where
  "dispatch_tag K tagType bodyData timestamp st =
     (if tagType = 8 then parseAudio K bodyData timestamp st
      else if tagType = 9 then parseVideo K bodyData timestamp st
      else if tagType = 18 then parseScript K bodyData timestamp st
      else warn (InvalidTagType tagType) st)"

text \<open>
  The \<open>while\<close> loop of \<open>demux\<close>; it answers the offset and the demuxer it stops with.
  Offsets are natural numbers: \<open>tag_dataSize\<close> is never negative (\<open>tag_dataSize_range\<close>).
\<close>

function tag_loop ::
  "('s, 'a) codecs \<Rightarrow> bytes \<Rightarrow> nat \<Rightarrow> ('s, 'a) FlvDemuxer \<Rightarrow> nat \<times> ('s, 'a) FlvDemuxer" where
  "tag_loop K data offset st =
     (if offset + 15 < length data then
        let tagType = u8 data offset;
            dataSize = nat (tag_dataSize data offset)
        in
        if offset + 15 + dataSize > length data then (offset, st)
        else
          let timestamp = tag_timestamp data offset;
              offset1 = offset + 11;
              bodyData = subarray data offset1 (offset1 + dataSize);
              st1 = dispatch_tag K tagType bodyData timestamp st;
              offset2 = offset1 + dataSize;
              prevTagSize = readBig32 data offset2;
              st2 = (if prevTagSize \<noteq> 11 + int dataSize
                     then warn (InvalidPrevTagSize prevTagSize (11 + int dataSize)) st1
                     else st1)
          in tag_loop K data (offset2 + 4) st2
      else (offset, st))"
  by pat_completeness auto
termination
  by (relation "measure (\<lambda>(K, data, offset, st). length data - offset)") auto

text \<open>
  The preprocessing of \<open>demux\<close> (lines 43 to 69): the data to parse and the demuxer.
  \<open>audioTrack\<close>, \<open>videoTrack\<close> and \<open>metadataTrack\<close> are the locals of line 43.
\<close>

definition demux_prepare ::
  "bytes \<Rightarrow> bool \<Rightarrow> bool \<Rightarrow> ('s, 'a) FlvDemuxer \<Rightarrow> bytes \<times> ('s, 'a) FlvDemuxer" where
  "demux_prepare data discontinuity contiguous st =
     (let audioTrack = audioTrack st;
          videoTrack = videoTrack st;
          metadataTrack = metadataTrack st;
          st = (if discontinuity \<or> \<not> contiguous then st\<lparr>remainingData := None\<rparr> else st);
          st = (if discontinuity then st\<lparr>headerParsed := False\<rparr> else st)
      in
      if discontinuity then
        (data, st\<lparr>videoTrack := VideoTrack_reset videoTrack,
                  audioTrack := AudioTrack_reset audioTrack,
                  metadataTrack := MetadataTrack_reset metadataTrack\<rparr>)
      else
        let videoTrack = videoTrack\<lparr>v_samples := [], v_warnings := []\<rparr>;
            audioTrack = audioTrack\<lparr>a_samples := [], a_warnings := []\<rparr>;
            metadataTrack = metadataTrack\<lparr>m_seiSamples := [], m_flvScriptSamples := []\<rparr>;
            st = st\<lparr>videoTrack := videoTrack, audioTrack := audioTrack,
                   metadataTrack := metadataTrack\<rparr>
        in
        (case remainingData st of
           Some r \<Rightarrow> (concatUint8Array r data, st\<lparr>remainingData := None\<rparr>)
         | None \<Rightarrow> (data, st)))"

text \<open>
  The FLV header (lines 80 to 92): the offset of the first tag, or the thrown error with
  the demuxer as the throw leaves it.
\<close>

definition demux_header ::
  "bytes \<Rightarrow> ('s, 'a) FlvDemuxer
     \<Rightarrow> (error \<times> ('s, 'a) FlvDemuxer) + (nat \<times> ('s, 'a) FlvDemuxer)" where
  "demux_header data st =
     (if \<not> headerParsed st then
        if \<not> probe data then Inl (InvalidFlvFile, st)
        else
          let audioTrack = (audioTrack st)\<lparr>a_present :=
                             (js_shr (js_and (u8 data 4) 4) 2 \<noteq> 0)\<rparr>;
              videoTrack = (videoTrack st)\<lparr>v_present := (js_and (u8 data 4) 1 \<noteq> 0)\<rparr>
          in Inr (nat (readBig32 data 5 + 4),
                  st\<lparr>audioTrack := audioTrack, videoTrack := videoTrack,
                     headerParsed := True\<rparr>)
      else Inr (0, st))"

text \<open>After the loop (lines 139 to 151), on the same three locals.\<close>

definition demux_finish ::
  "bytes \<Rightarrow> nat \<Rightarrow> ('s, 'a) FlvDemuxer \<Rightarrow> ('s, 'a) FlvDemuxer" where
  "demux_finish data offset st =
     (let st = (if offset < length data
                then st\<lparr>remainingData := Some (subarray_from data offset)\<rparr> else st);
          metadataTrack = (metadataTrack st)\<lparr>m_timescale := 1000\<rparr>;
          videoTrack = (videoTrack st)\<lparr>v_timescale := 1000, v_formatTimescale := 1000\<rparr>;
          audioTrack = (audioTrack st)\<lparr>a_formatTimescale := 1000\<rparr>;
          audioTrack = audioTrack\<lparr>a_timescale :=
                         (if a_sampleRate audioTrack \<noteq> 0 then a_sampleRate audioTrack else 0)\<rparr>;
          audioTrack = (if \<not> AudioTrack_exist audioTrack \<and> AudioTrack_hasSample audioTrack
                        then AudioTrack_reset audioTrack else audioTrack);
          videoTrack = (if \<not> VideoTrack_exist videoTrack \<and> VideoTrack_hasSample videoTrack
                        then VideoTrack_reset videoTrack else videoTrack)
      in st\<lparr>videoTrack := videoTrack, audioTrack := audioTrack,
             metadataTrack := metadataTrack\<rparr>)"

definition demux ::
  "('s, 'a) codecs \<Rightarrow> bytes \<Rightarrow> bool \<Rightarrow> bool \<Rightarrow> ('s, 'a) FlvDemuxer
     \<Rightarrow> (error \<times> ('s, 'a) FlvDemuxer) + ('s, 'a) FlvDemuxer" where
  "demux K data discontinuity contiguous st =
     (let (data, st) = demux_prepare data discontinuity contiguous st in
      if length data = 0 then Inr st
      else
        case demux_header data st of
          Inl e \<Rightarrow> Inl e
        | Inr (offset, st) \<Rightarrow>
            let (offset, st) = tag_loop K data offset st
            in Inr (demux_finish data offset st))"

section \<open>Running the demuxer\<close>

text \<open>
  A sequence of \<open>demux\<close> calls on one demuxer, each with its data and its two flags: the
  video samples the calls return, one after the other, and the demuxer in the end. A call
  that throws returns nothing and leaves the demuxer as the throw left it.
\<close>

fun demux_calls ::
  "('s, 'a) codecs \<Rightarrow> (bytes \<times> bool \<times> bool) list \<Rightarrow> ('s, 'a) FlvDemuxer
     \<Rightarrow> VideoSample list \<times> ('s, 'a) FlvDemuxer" where
  "demux_calls K [] st = ([], st)"
| "demux_calls K ((data, discontinuity, contiguous) # calls) st =
     (case demux K data discontinuity contiguous st of
        Inl (e, st1) \<Rightarrow> demux_calls K calls st1
      | Inr st1 \<Rightarrow>
          (case demux_calls K calls st1 of
             (out, st2) \<Rightarrow> (v_samples (videoTrack st1) @ out, st2)))"

text \<open>
  Stand-ins for the collaborators, to run the demuxer on concrete bytes: no configuration
  record parses, a non-empty NALU payload is one unit, and the SEI and AMF parsers answer
  the bytes they are given.
\<close>

definition stub_codecs :: "(bytes, bytes) codecs" where
  "stub_codecs =
     \<lparr>parseAudioSpecificConfig = (\<lambda>d. None),
      parseAVCDecoderConfigurationRecord = (\<lambda>d. None),
      parseHEVCDecoderConfigurationRecord = (\<lambda>d. None),
      parseAvcC = (\<lambda>d n. if d = [] then [] else [d]),
      removeEPB = (\<lambda>d. d),
      parseSEI = (\<lambda>d h. d),
      AMF_parse = (\<lambda>d. d)\<rparr>"

text \<open>The warnings that are logged where a track is reset while a tag is parsed.\<close>

fun resets_track :: "warning \<Rightarrow> bool" where
  "resets_track (UnsupportedSoundFormat f) = True"
| "resets_track (CannotParseAudioSpecificConfig d) = True"
| "resets_track (UnsupportedCodecId c) = True"
| "resets_track w = False"

section \<open>Concrete inputs\<close>

definition hevc_demuxer :: "(bytes, bytes) FlvDemuxer" where
  "hevc_demuxer =
     new_FlvDemuxer\<lparr>videoTrack :=
       new_VideoTrack\<lparr>v_vps := [[0x40, 1]], v_sps := [[0x42, 1]], v_pps := [[0x44, 1]]\<rparr>\<rparr>"

definition unsupported_codec_stream :: bytes where
  "unsupported_codec_stream =
     [9, 0, 0, 6, 0, 0, 0, 0, 0, 0, 0, 0x13, 1, 0, 0, 0, 0x65, 0, 0, 0, 17,
      18, 0, 0, 1, 0, 0, 0, 0, 0, 0, 0, 0x02, 0, 0, 0, 12, 0]"

definition flv_header :: "byte \<Rightarrow> bytes" where
  "flv_header flags = [0x46, 0x4C, 0x56, 0x01, flags, 0, 0, 0, 9, 0, 0, 0, 0]"

definition avc_keyframe_tag :: bytes where
  "avc_keyframe_tag =
     [9, 0, 0, 6, 0, 0, 0, 0, 0, 0, 0, 0x17, 1, 0, 0, 0, 0x65, 0, 0, 0, 17]"

definition avc_inter_tag :: bytes where
  "avc_inter_tag =
     [9, 0, 0, 6, 0, 0, 40, 0, 0, 0, 0, 0x27, 1, 0, 0, 0, 0x41, 0, 0, 0, 17]"

definition g711_tag :: bytes where
  "g711_tag = [8, 0, 0, 2, 0, 0, 0, 0, 0, 0, 0, 0x70, 0xAA, 0, 0, 0, 13]"

definition empty_script_tag :: bytes where
  "empty_script_tag = [18, 0, 0, 0, 0, 0, 0, 0, 0, 0, 0, 0, 0, 0, 11]"


definition sample_stream :: bytes where
  "sample_stream = flv_header 5 @ avc_keyframe_tag @ g711_tag @ avc_inter_tag"

definition hevc_inter_tag :: bytes where
  "hevc_inter_tag =
     [9, 0, 0, 7, 0, 0, 0, 0, 0, 0, 0, 0x2C, 1, 0, 0, 0, 0x02, 0x01, 0, 0, 0, 18]"

definition sei_in_vps_demuxer :: "(bytes, bytes) FlvDemuxer" where
  "sei_in_vps_demuxer =
     new_FlvDemuxer\<lparr>videoTrack := new_VideoTrack\<lparr>v_vps := [[0x4E, 1]]\<rparr>\<rparr>"


section \<open>Notions for the proofs\<close>

text \<open>
  The video samples a demuxer holds are numbered in order, from \<open>g0\<close> up to the counter.
\<close>

definition gop_ordered :: "int \<Rightarrow> ('s, 'a) FlvDemuxer \<Rightarrow> bool" where
  "gop_ordered g0 s \<longleftrightarrow>
     sorted (map vs_gopId (v_samples (videoTrack s)))
     \<and> (\<forall>x \<in> set (v_samples (videoTrack s)). g0 \<le> vs_gopId x \<and> vs_gopId x \<le> gopId s)
     \<and> g0 \<le> gopId s"

text \<open>One round of the loop, and where the loop stops at once.\<close>

definition tag_complete :: "bytes \<Rightarrow> nat \<Rightarrow> bool" where
  "tag_complete data offset \<longleftrightarrow>
     offset + 15 < length data
     \<and> offset + 15 + nat (tag_dataSize data offset) \<le> length data"

definition after_tag ::
  "('s, 'a) codecs \<Rightarrow> bytes \<Rightarrow> nat \<Rightarrow> ('s, 'a) FlvDemuxer \<Rightarrow> ('s, 'a) FlvDemuxer" where
  "after_tag K data offset st =
     (let dataSize = nat (tag_dataSize data offset);
          st1 = dispatch_tag K (u8 data offset)
                  (subarray data (offset + 11) (offset + 11 + dataSize))
                  (tag_timestamp data offset) st;
          prevTagSize = readBig32 data (offset + 11 + dataSize)
      in if prevTagSize \<noteq> 11 + int dataSize
         then warn (InvalidPrevTagSize prevTagSize (11 + int dataSize)) st1 else st1)"





text \<open>
  The warnings in the log that come with a reset of a track, and those a tag adds: they
  depend on the tag and the collaborators, not on the demuxer.
\<close>

definition reset_warnings :: "('s, 'a) FlvDemuxer \<Rightarrow> warning list" where
  "reset_warnings s = filter resets_track (logged s)"




text \<open>The equation of the loop is unfolded by hand, one round at a time.\<close>

declare tag_loop.simps [simp del]

section \<open>Arithmetic of the byte readers\<close>

lemma u8_range: "0 \<le> u8 d i \<and> u8 d i < 256"
  by (auto simp: u8_def at_def intro: order_less_le_trans[OF uint_lt2p])

lemma u8_in_range: "i < length d \<Longrightarrow> u8 d i = uint (d ! i)"
  by (simp add: u8_def at_def)

lemma js_shl_16: "0 \<le> b \<Longrightarrow> b < 256 \<Longrightarrow> js_shl b 16 = b * 65536"
  unfolding js_shl_def to_int32_def
  by (simp add: push_bit_eq_mult signed_take_bit_int_eq_self)

lemma js_shl_8: "0 \<le> b \<Longrightarrow> b < 256 \<Longrightarrow> js_shl b 8 = b * 256"
  unfolding js_shl_def to_int32_def
  by (simp add: push_bit_eq_mult signed_take_bit_int_eq_self)

lemma js_shl_24_shr: "0 \<le> b \<Longrightarrow> b < 256 \<Longrightarrow> js_shr (js_shl b 24) 0 = b * 16777216"
  unfolding js_shl_def js_shr_def to_int32_def to_uint32_def
  by (simp add: push_bit_eq_mult take_bit_signed_take_bit take_bit_int_eq_self)

lemma or_disjoint: "0 \<le> c \<Longrightarrow> c < 2 ^ n \<Longrightarrow> push_bit n a OR c = push_bit n a + (c::int)"
  using concat_bit_def[of n c a] concat_bit_eq[of n c a]
  by (simp add: take_bit_int_eq_self or.commute add.commute)

lemma big_endian_24:
  assumes "0 \<le> a" "a < 256" "0 \<le> b" "b < 256" "0 \<le> c" "c < 256"
  shows "js_or (js_or (js_shl a 16) (js_shl b 8)) c = a * 65536 + b * 256 + c"
proof -
  have 1: "push_bit 16 a OR (b * 256) = push_bit 16 a + b * 256"
    using assms by (intro or_disjoint) auto
  have 2: "push_bit 8 (a * 256 + b) OR c = push_bit 8 (a * 256 + b) + c"
    using assms by (intro or_disjoint) auto
  have 3: "a * 65536 + b * 256 = push_bit 8 (a * 256 + b)"
    by (simp add: push_bit_eq_mult)
  have r1: "a * 65536 + b * 256 < 2 ^ 31" "0 \<le> a * 65536 + b * 256"
    using assms by auto
  have "js_or (js_shl a 16) (js_shl b 8) = a * 65536 + b * 256"
    using assms 1 by (simp add: js_or_def js_shl_16 js_shl_8 to_int32_def
        signed_take_bit_int_eq_self push_bit_eq_mult)
  moreover have "js_or (a * 65536 + b * 256) c = a * 65536 + b * 256 + c"
    using assms 2 r1 unfolding 3[symmetric]
    by (simp add: js_or_def to_int32_def signed_take_bit_int_eq_self)
  ultimately show ?thesis by simp
qed

lemma sar_shl_8: "js_sar (js_shl v 8) 8 = signed_take_bit 23 v"
  unfolding js_sar_def js_shl_def to_int32_def
  by (rule bit_eqI) (auto simp: bit_signed_take_bit_iff bit_drop_bit_eq bit_push_bit_iff min_def)

lemma signed_24: "signed_take_bit 23 (v::int) = (if v < 2 ^ 23 then v else v - 2 ^ 24)"
  if "0 \<le> v" "v < 2 ^ 24"
proof (cases "v < 2 ^ 23")
  case True
  then show ?thesis using that by (simp add: signed_take_bit_int_eq_self)
next
  case False
  have a: "(v - 8388608 + 16777216) mod 16777216 = (v - 8388608) mod 16777216"
    by (rule mod_add_self2)
  have b: "v - 8388608 + 16777216 = v + 8388608" by simp
  have c: "(v - 8388608) mod 16777216 = v - 8388608" using False that by simp
  have "(v + 8388608) mod 16777216 = v - 8388608" using a unfolding b c .
  then show ?thesis using False
    by (simp add: signed_take_bit_eq_take_bit_shift take_bit_eq_mod)
qed

lemma tag_dataSize_eq:
  "tag_dataSize data offset =
     u8 data (offset + 1) * 65536 + u8 data (offset + 2) * 256 + u8 data (offset + 3)"
  unfolding tag_dataSize_def by (intro big_endian_24) (simp_all add: u8_range)

lemma tag_dataSize_range: "0 \<le> tag_dataSize data offset \<and> tag_dataSize data offset < 2 ^ 24"
proof -
  have "0 \<le> u8 data (offset + 1) \<and> u8 data (offset + 1) < 256"
       "0 \<le> u8 data (offset + 2) \<and> u8 data (offset + 2) < 256"
       "0 \<le> u8 data (offset + 3) \<and> u8 data (offset + 3) < 256"
    by (rule u8_range)+
  then show ?thesis unfolding tag_dataSize_eq by simp
qed

lemma tag_timestamp_eq:
  "tag_timestamp data offset =
     u8 data (offset + 7) * 16777216 + u8 data (offset + 4) * 65536
       + u8 data (offset + 5) * 256 + u8 data (offset + 6)"
  unfolding tag_timestamp_def
  by (simp add: js_shl_24_shr js_shl_16 js_shl_8 u8_range)



lemma video_cts_eq:
  "video_cts data =
     (let v = u8 data 2 * 65536 + u8 data 3 * 256 + u8 data 4
      in if v < 2 ^ 23 then v else v - 2 ^ 24)"
proof -
  have r: "0 \<le> u8 data 2 \<and> u8 data 2 < 256" "0 \<le> u8 data 3 \<and> u8 data 3 < 256"
       "0 \<le> u8 data 4 \<and> u8 data 4 < 256"
    by (rule u8_range)+
  have v: "js_or (js_or (js_shl (u8 data 2) 16) (js_shl (u8 data 3) 8)) (u8 data 4)
             = u8 data 2 * 65536 + u8 data 3 * 256 + u8 data 4"
    by (intro big_endian_24) (simp_all add: u8_range)
  have "0 \<le> u8 data 2 * 65536 + u8 data 3 * 256 + u8 data 4"
       "u8 data 2 * 65536 + u8 data 3 * 256 + u8 data 4 < 2 ^ 24"
    using r by auto
  then show ?thesis
    unfolding video_cts_def v sar_shl_8 Let_def by (rule signed_24)
qed

text \<open>The index into \<open>AUDIO_RATE\<close> is always one of its four entries.\<close>

lemma sound_rate_index: "nat (js_sar (js_and (u8 data 0) 0x0c) 2) < length AUDIO_RATE"
proof -
  have "0 \<le> js_and (u8 data 0) 0x0c \<and> js_and (u8 data 0) 0x0c \<le> 12"
    using u8_range[of data 0]
    by (simp add: js_and_def to_int32_def signed_take_bit_int_eq_self AND_upper2')
  then have "0 \<le> js_sar (js_and (u8 data 0) 0x0c) 2
             \<and> js_sar (js_and (u8 data 0) 0x0c) 2 \<le> 3"
    by (simp add: js_sar_def to_int32_def signed_take_bit_int_eq_self drop_bit_eq_div)
       linarith
  then show ?thesis by (simp add: AUDIO_RATE_def) linarith
qed

section \<open>Video tags, step by step\<close>

lemma checkAddMetaNalToUnits_snd:
  "snd (checkAddMetaNalToUnits hevc units track st) =
     st\<lparr>needAddMetaBeforeKeyFrameNal :=
          hevc \<and> needAddMetaBeforeKeyFrameNal st \<and> 32 \<notin> set (map hevc_nal_type units)\<rparr>"
  by (auto simp: checkAddMetaNalToUnits_def Let_def)

lemma filter_Boolean_map_Some: "filter_Boolean (map Some xs) = xs"
  by (induction xs) auto

lemma filter_Boolean_first: "filter_Boolean (first xs # ys) = take 1 xs @ filter_Boolean ys"
  by (cases xs) (auto simp: first_def)

lemma checkAddMetaNalToUnits_fst:
  "fst (checkAddMetaNalToUnits hevc units track st) =
     (if hevc \<and> needAddMetaBeforeKeyFrameNal st \<and> 32 \<notin> set (map hevc_nal_type units)
      then take 1 (v_vps track) @ take 1 (v_sps track) @ take 1 (v_pps track) @ units
      else units)"
  by (auto simp: checkAddMetaNalToUnits_def Let_def filter_Boolean_first filter_Boolean_map_Some)

lemma parseNALUs_cases:
  fixes st :: "('s, 'a) FlvDemuxer" and K isHevc data frameType dts cts
  defines "units \<equiv> fst (checkAddMetaNalToUnits isHevc
                      (parseAvcC K (subarray_from data 5) (v_nalUnitSize (videoTrack st)))
                      (videoTrack st) st)"
  defines "st' \<equiv> parseNALUs K isHevc frameType data dts cts st"
  shows "(units \<noteq> [] \<and>
          (\<exists>s. v_samples (videoTrack st') = v_samples (videoTrack st) @ [s]
             \<and> vs_pts s = dts + cts \<and> vs_dts s = dts \<and> vs_units s = units
             \<and> vs_gopId s = gopId st'
             \<and> gopId st' = gopId st + (if vs_keyframe s then 1 else 0)))
       \<or> (units = [] \<and> v_samples (videoTrack st') = v_samples (videoTrack st)
             \<and> gopId st' = gopId st)"
proof -
  obtain u s1 where c: "checkAddMetaNalToUnits isHevc
                      (parseAvcC K (subarray_from data 5) (v_nalUnitSize (videoTrack st)))
                      (videoTrack st) st = (u, s1)"
    by (cases "checkAddMetaNalToUnits isHevc
                      (parseAvcC K (subarray_from data 5) (v_nalUnitSize (videoTrack st)))
                      (videoTrack st) st")
  have u: "u = units" using c by (simp add: units_def)
  have s1: "gopId s1 = gopId st" "videoTrack s1 = videoTrack st"
    using checkAddMetaNalToUnits_snd[of isHevc "parseAvcC K (subarray_from data 5) (v_nalUnitSize (videoTrack st))" "videoTrack st" st] c
    by simp_all
  show ?thesis
  proof (cases "units = []")
    case True
    then show ?thesis using c u s1 by (simp add: st'_def parseNALUs_def warn_def)
  next
    case False
    obtain kf sei where f: "foldl (scan_unit K isHevc (dts + cts))
                (frameType = 1, m_seiSamples (metadataTrack s1)) units = (kf, sei)"
      by (cases "foldl (scan_unit K isHevc (dts + cts))
                (frameType = 1, m_seiSamples (metadataTrack s1)) units")
    show ?thesis using False c u s1 f
      by (simp add: st'_def parseNALUs_def Let_def)
  qed
qed

lemma storeDecoderConfigurationRecord_samples:
  "v_samples (storeDecoderConfigurationRecord ret track) = v_samples track"
  by (simp add: storeDecoderConfigurationRecord_def Let_def split: option.splits)

lemma parseVideo_cases:
  fixes st :: "('s, 'a) FlvDemuxer" and K data dts
  defines "st' \<equiv> parseVideo K data dts st"
  shows "(\<exists>s. v_samples (videoTrack st') = v_samples (videoTrack st) @ [s]
             \<and> vs_pts s = dts + video_cts data \<and> vs_dts s = dts
             \<and> vs_gopId s = gopId st'
             \<and> gopId st' = gopId st + (if vs_keyframe s then 1 else 0))
       \<or> (gopId st' = gopId st
            \<and> (v_samples (videoTrack st') = v_samples (videoTrack st)
                 \<or> v_samples (videoTrack st') = []))"
proof -
  let ?c = "js_and (u8 data 0) 0x0f"
  let ?t = "(videoTrack st)\<lparr>v_codecType := Some (if ?c = 12 then HEVC else AVC)\<rparr>"
  consider (short) "length data < 6"
    | (bad) "\<not> length data < 6" "?c \<noteq> 7 \<and> ?c \<noteq> 12"
    | (nalu) "\<not> length data < 6" "\<not> (?c \<noteq> 7 \<and> ?c \<noteq> 12)" "u8 data 1 = 1"
    | (other) "\<not> length data < 6" "\<not> (?c \<noteq> 7 \<and> ?c \<noteq> 12)" "u8 data 1 \<noteq> 1"
    by blast
  then show ?thesis
  proof cases
    case short
    then show ?thesis by (simp add: st'_def parseVideo_def)
  next
    case bad
    then show ?thesis
      by (simp add: st'_def parseVideo_def Let_def warn_def VideoTrack_reset_def new_VideoTrack_def)
  next
    case nalu
    have e: "st' = parseNALUs K (?c = 12) (js_shr (js_and (u8 data 0) 0xf0) 4) data dts
                     (video_cts data) (st\<lparr>videoTrack := ?t\<rparr>)"
      using nalu by (auto simp: st'_def parseVideo_def Let_def)
    show ?thesis
      using parseNALUs_cases[where K = K and isHevc = "?c = 12" and data = data and dts = dts
                and frameType = "js_shr (js_and (u8 data 0) 0xf0) 4"
                and cts = "video_cts data" and st = "st\<lparr>videoTrack := ?t\<rparr>"]
      unfolding e[symmetric] by auto
  next
    case other
    then show ?thesis
      by (auto simp: st'_def parseVideo_def Let_def warn_def
            storeDecoderConfigurationRecord_samples split: option.splits)
  qed
qed

lemma parseVideo_nalu:
  assumes "6 \<le> length data" "u8 data 1 = 1"
      and "js_and (u8 data 0) 0x0f = 7 \<or> js_and (u8 data 0) 0x0f = 12"
  shows "parseVideo K data dts st =
           parseNALUs K (js_and (u8 data 0) 0x0f = 12) (js_shr (js_and (u8 data 0) 0xf0) 4)
             data dts (video_cts data)
             (st\<lparr>videoTrack := (videoTrack st)\<lparr>v_codecType :=
                  Some (if js_and (u8 data 0) 0x0f = 12 then HEVC else AVC)\<rparr>\<rparr>)"
  using assms by (auto simp: parseVideo_def Let_def)

section \<open>What a tag leaves alone\<close>





lemma parseAudio_frame:
  "headerParsed (parseAudio K data pts st) = headerParsed st"
  "remainingData (parseAudio K data pts st) = remainingData st"
  "videoTrack (parseAudio K data pts st) = videoTrack st"
  "metadataTrack (parseAudio K data pts st) = metadataTrack st"
  "gopId (parseAudio K data pts st) = gopId st"
  "needAddMetaBeforeKeyFrameNal (parseAudio K data pts st) = needAddMetaBeforeKeyFrameNal st"
  "a_present (audioTrack (parseAudio K data pts st)) = a_present (audioTrack st)"
  by (simp_all add: parseAudio_def parseAac_def parseG711_def Let_def warn_def
        AudioTrack_reset_def split: option.splits)

lemma parseScript_frame:
  "headerParsed (parseScript K data pts st) = headerParsed st"
  "remainingData (parseScript K data pts st) = remainingData st"
  "videoTrack (parseScript K data pts st) = videoTrack st"
  "audioTrack (parseScript K data pts st) = audioTrack st"
  "gopId (parseScript K data pts st) = gopId st"
  "needAddMetaBeforeKeyFrameNal (parseScript K data pts st) = needAddMetaBeforeKeyFrameNal st"
  "logged (parseScript K data pts st) = logged st"
  by (simp_all add: parseScript_def)


text \<open>An invariant of the demuxer that every tag and every warning keeps is kept by the loop.\<close>

lemma tag_loop_invariant:
  assumes "P st"
      and "\<And>tt body ts s. P s \<Longrightarrow> P (dispatch_tag K tt body ts s)"
      and "\<And>w s. P s \<Longrightarrow> P (warn w s)"
  shows "P (snd (tag_loop K data offset st))"
  using assms
proof (induction K data offset st rule: tag_loop.induct)
  case (1 K data offset st)
  note step = "1.prems"(2) and warns = "1.prems"(3)
  show ?case
  proof (cases "offset + 15 < length data
                 \<and> \<not> length data < offset + 15 + nat (tag_dataSize data offset)")
    case False
    then show ?thesis using "1.prems"(1) by (subst tag_loop.simps) (auto simp: Let_def)
  next
    case True
    let ?n = "nat (tag_dataSize data offset)"
    let ?s1 = "dispatch_tag K (u8 data offset) (subarray data (offset + 11) (offset + 11 + ?n))
                (tag_timestamp data offset) st"
    let ?p = "readBig32 data (offset + 11 + ?n)"
    let ?s2 = "if ?p \<noteq> 11 + int ?n then warn (InvalidPrevTagSize ?p (11 + int ?n)) ?s1 else ?s1"
    have e: "tag_loop K data offset st = tag_loop K data (offset + 11 + ?n + 4) ?s2"
      using True by (subst tag_loop.simps) (simp add: Let_def)
    have "P ?s1" using "1.prems"(1) by (rule step)
    then have "P ?s2" using warns by (simp del: int_nat_eq)
    then have "P (snd (tag_loop K data (offset + 11 + ?n + 4) ?s2))"
      using True step warns by (intro "1.IH") (auto simp: Let_def)
    then show ?thesis unfolding e .
  qed
qed



lemma demux_finish_videoTrack:
  "videoTrack (demux_finish data offset st) =
     (let t = (videoTrack st)\<lparr>v_timescale := 1000, v_formatTimescale := 1000\<rparr>
      in if \<not> v_present t \<and> v_samples t \<noteq> [] then VideoTrack_reset t else t)"
  by (simp add: demux_finish_def Let_def VideoTrack_exist_def VideoTrack_hasSample_def)


lemma demux_finish_frame:
  "headerParsed (demux_finish data offset st) = headerParsed st"
  "gopId (demux_finish data offset st) = gopId st"
  "needAddMetaBeforeKeyFrameNal (demux_finish data offset st) = needAddMetaBeforeKeyFrameNal st"
  "logged (demux_finish data offset st) = logged st"
  "remainingData (demux_finish data offset st) =
     (if offset < length data then Some (drop offset data) else remainingData st)"
  by (simp_all add: demux_finish_def Let_def subarray_from_def)


lemma VideoTrack_reset_fields:
  "v_samples (VideoTrack_reset t) = []" "v_present (VideoTrack_reset t) = v_present t"
  "VideoTrack_reset (VideoTrack_reset t) = VideoTrack_reset t"
  by (simp_all add: VideoTrack_reset_def new_VideoTrack_def)

section \<open>The GOP counter\<close>

lemma dispatch_tag_gop:
  fixes st :: "('s, 'a) FlvDemuxer" and K tagType body timestamp
  defines "st' \<equiv> dispatch_tag K tagType body timestamp st"
  shows "(\<exists>s. v_samples (videoTrack st') = v_samples (videoTrack st) @ [s]
             \<and> vs_gopId s = gopId st'
             \<and> gopId st' = gopId st + (if vs_keyframe s then 1 else 0))
       \<or> (gopId st' = gopId st
            \<and> (v_samples (videoTrack st') = v_samples (videoTrack st)
                 \<or> v_samples (videoTrack st') = []))"
proof (cases "tagType = 9")
  case True
  then have "st' = parseVideo K body timestamp st" by (simp add: st'_def dispatch_tag_def)
  then show ?thesis
    using parseVideo_cases[where K = K and data = body and dts = timestamp and st = st] by auto
next
  case False
  then have "gopId st' = gopId st \<and> videoTrack st' = videoTrack st"
    by (simp add: st'_def dispatch_tag_def parseAudio_frame parseScript_frame warn_def)
  then show ?thesis by simp
qed

lemma dispatch_tag_gop_ordered:
  assumes "gop_ordered g0 s"
  shows "gop_ordered g0 (dispatch_tag K tt body ts s)"
proof -
  let ?s' = "dispatch_tag K tt body ts s"
  from dispatch_tag_gop[where K = K and tagType = tt and body = body and timestamp = ts and st = s]
  consider (app) x where "v_samples (videoTrack ?s') = v_samples (videoTrack s) @ [x]"
      "vs_gopId x = gopId ?s'" "gopId ?s' = gopId s + (if vs_keyframe x then 1 else 0)"
    | (same) "gopId ?s' = gopId s" "v_samples (videoTrack ?s') = v_samples (videoTrack s)"
    | (reset) "gopId ?s' = gopId s" "v_samples (videoTrack ?s') = []"
    by blast
  then show ?thesis
  proof cases
    case app
    have "gopId s \<le> gopId ?s'" using app(3) by simp
    then show ?thesis using assms app(1,2)
      unfolding gop_ordered_def by (auto simp: sorted_append)
  next
    case same
    then show ?thesis using assms unfolding gop_ordered_def by simp
  next
    case reset
    then show ?thesis using assms unfolding gop_ordered_def by simp
  qed
qed

lemma tag_loop_gop_ordered:
  "gop_ordered g0 s \<Longrightarrow> gop_ordered g0 (snd (tag_loop K data offset s))"
  by (rule tag_loop_invariant[where P = "gop_ordered g0"])
     (simp_all add: dispatch_tag_gop_ordered, simp add: gop_ordered_def warn_def)

lemma demux_prepare_gop:
  "gopId (snd (demux_prepare data discontinuity contiguous st)) = gopId st"
  "v_samples (videoTrack (snd (demux_prepare data discontinuity contiguous st))) = []"
  by (simp_all add: demux_prepare_def Let_def VideoTrack_reset_def new_VideoTrack_def
        split: option.splits)

lemma demux_header_gop:
  "demux_header data st = Inr (offset, st') \<Longrightarrow>
     gopId st' = gopId st \<and> v_samples (videoTrack st') = v_samples (videoTrack st)"
  "demux_header data st = Inl (e, st') \<Longrightarrow> st' = st"
  by (auto simp: demux_header_def Let_def split: if_splits)

lemma demux_finish_gop_ordered:
  "gop_ordered g0 s \<Longrightarrow> gop_ordered g0 (demux_finish data offset s)"
  by (simp add: gop_ordered_def demux_finish_videoTrack demux_finish_frame Let_def
        VideoTrack_reset_fields)

lemma demux_gop:
  "case demux K data discontinuity contiguous st of
     Inl (e, st1) \<Rightarrow> gopId st1 = gopId st
   | Inr st1 \<Rightarrow> gop_ordered (gopId st) st1"
proof -
  obtain d s1 where p: "demux_prepare data discontinuity contiguous st = (d, s1)"
    by (cases "demux_prepare data discontinuity contiguous st")
  have s1: "gopId s1 = gopId st" "v_samples (videoTrack s1) = []"
    using demux_prepare_gop[of data discontinuity contiguous st] p by simp_all
  then have g1: "gop_ordered (gopId st) s1" by (simp add: gop_ordered_def)
  show ?thesis
  proof (cases "d = []")
    case True
    then show ?thesis using p g1 by (simp add: demux_def)
  next
    case False
    show ?thesis
    proof (cases "demux_header d s1")
      case (Inl a)
      then show ?thesis using p False s1 demux_header_gop(2)[of d s1 "fst a" "snd a"]
        by (cases a) (simp add: demux_def)
    next
      case (Inr b)
      obtain off s2 where b: "b = (off, s2)" by (cases b)
      obtain off' s3 where l: "tag_loop K d off s2 = (off', s3)" by (cases "tag_loop K d off s2")
      have "gop_ordered (gopId st) s2"
        using demux_header_gop(1)[of d s1 off s2] Inr b g1 by (simp add: gop_ordered_def)
      then have "gop_ordered (gopId st) s3"
        using tag_loop_gop_ordered[of "gopId st" s2 K d off] l by simp
      then have "gop_ordered (gopId st) (demux_finish d off' s3)"
        by (rule demux_finish_gop_ordered)
      then show ?thesis using p False Inr b l by (simp add: demux_def)
    qed
  qed
qed

lemma demux_calls_gop:
  "sorted (map vs_gopId (fst (demux_calls K calls st)))
   \<and> (\<forall>s \<in> set (fst (demux_calls K calls st)).
         gopId st \<le> vs_gopId s \<and> vs_gopId s \<le> gopId (snd (demux_calls K calls st)))
   \<and> gopId st \<le> gopId (snd (demux_calls K calls st))"
proof (induction calls arbitrary: st)
  case Nil
  then show ?case by simp
next
  case (Cons c calls)
  obtain data discontinuity contiguous where c: "c = (data, discontinuity, contiguous)"
    by (cases c)
  show ?case
  proof (cases "demux K data discontinuity contiguous st")
    case (Inl a)
    obtain e st1 where a: "a = (e, st1)" by (cases a)
    have "gopId st1 = gopId st"
      using demux_gop[where K = K and data = data and discontinuity = discontinuity
          and contiguous = contiguous and st = st] Inl a by simp
    then show ?thesis using Cons.IH[of st1] Inl a c by simp
  next
    case (Inr st1)
    have g: "gop_ordered (gopId st) st1"
      using demux_gop[where K = K and data = data and discontinuity = discontinuity
          and contiguous = contiguous and st = st] Inr by simp
    obtain out st2 where r: "demux_calls K calls st1 = (out, st2)"
      by (cases "demux_calls K calls st1")
    have ih: "sorted (map vs_gopId out)"
        "\<forall>s \<in> set out. gopId st1 \<le> vs_gopId s \<and> vs_gopId s \<le> gopId st2"
        "gopId st1 \<le> gopId st2"
      using Cons.IH[of st1] r by simp_all
    have e: "demux_calls K (c # calls) st = (v_samples (videoTrack st1) @ out, st2)"
      using c Inr r by simp
    show ?thesis
      unfolding e using g ih
      by (fastforce simp: gop_ordered_def sorted_append)
  qed
qed

section \<open>The loop on a longer buffer, and on the rest of a buffer\<close>












lemma tag_loop_step:
  "tag_complete data offset \<Longrightarrow>
     tag_loop K data offset st =
       tag_loop K data (offset + 15 + nat (tag_dataSize data offset)) (after_tag K data offset st)"
  by (subst tag_loop.simps) (simp add: tag_complete_def after_tag_def Let_def add.assoc)










section \<open>Samples carried over\<close>



















section \<open>Reset warnings depend on the tags alone\<close>









section \<open>Two calls against one\<close>



lemma probe_length: "probe d \<Longrightarrow> 4 \<le> length d"
  by (auto simp: probe_def at_def split: if_splits)







section \<open>The claims\<close>





text \<open>
  The other three conditions of C1 as amended are needed as well. A split inside the
  previous-tag-size field after the header: the first call accepts the header, its offset
  lies past its data, nothing is kept, and the second call reads tags from the wrong
  place. A tag that resets the video track in the second call: the single call drops the
  sample of the first tag with the reset, the first of the two calls has returned it. A
  first call that ends with the reset of the video track (the header announces audio
  only, the call has parsed a video sample): the reset empties the parameter sets that
  the single call goes on inserting; here the demuxer was constructed on a track whose
  \<open>vps[0]\<close> has the NAL type of an SEI message, so that the insertion shows in the SEI
  samples.
\<close>

lemma split_inside_first_prev_tag_size:
  "\<exists>st1 st2 st'.
     demux stub_codecs (take 10 sample_stream) False True new_FlvDemuxer = Inr st1
     \<and> demux stub_codecs (drop 10 sample_stream) False True st1 = Inr st2
     \<and> demux stub_codecs sample_stream False True new_FlvDemuxer = Inr st'
     \<and> remainingData st1 = None
     \<and> map vs_dts (v_samples (videoTrack st1) @ v_samples (videoTrack st2)) = [40]
     \<and> map vs_dts (v_samples (videoTrack st')) = [0, 40]"
proof -
  have "case demux stub_codecs (take 10 sample_stream) False True new_FlvDemuxer of
          Inl e \<Rightarrow> False
        | Inr st1 \<Rightarrow>
            (case demux stub_codecs (drop 10 sample_stream) False True st1 of
               Inl e \<Rightarrow> False
             | Inr st2 \<Rightarrow>
                 (case demux stub_codecs sample_stream False True new_FlvDemuxer of
                    Inl e \<Rightarrow> False
                  | Inr st' \<Rightarrow>
                      remainingData st1 = None
                      \<and> map vs_dts (v_samples (videoTrack st1) @ v_samples (videoTrack st2))
                          = [40]
                      \<and> map vs_dts (v_samples (videoTrack st')) = [0, 40]))"
    by code_simp
  then show ?thesis
    by (auto split: sum.splits)
qed

lemma reset_in_second_call_drops_less:
  "\<exists>st1 st2 st'.
     demux stub_codecs (flv_header 5 @ avc_keyframe_tag) False True new_FlvDemuxer = Inr st1
     \<and> demux stub_codecs (take 21 unsupported_codec_stream @ avc_inter_tag) False True st1
         = Inr st2
     \<and> demux stub_codecs
           ((flv_header 5 @ avc_keyframe_tag) @ take 21 unsupported_codec_stream @ avc_inter_tag)
           False True new_FlvDemuxer = Inr st'
     \<and> map vs_dts (v_samples (videoTrack st1) @ v_samples (videoTrack st2)) = [0, 40]
     \<and> map vs_dts (v_samples (videoTrack st')) = [40]
     \<and> reset_warnings st' = [UnsupportedCodecId 3]"
proof -
  have "case demux stub_codecs (flv_header 5 @ avc_keyframe_tag) False True new_FlvDemuxer of
          Inl e \<Rightarrow> False
        | Inr st1 \<Rightarrow>
            (case demux stub_codecs (take 21 unsupported_codec_stream @ avc_inter_tag)
                    False True st1 of
               Inl e \<Rightarrow> False
             | Inr st2 \<Rightarrow>
                 (case demux stub_codecs
                         ((flv_header 5 @ avc_keyframe_tag)
                            @ take 21 unsupported_codec_stream @ avc_inter_tag)
                         False True new_FlvDemuxer of
                    Inl e \<Rightarrow> False
                  | Inr st' \<Rightarrow>
                      map vs_dts (v_samples (videoTrack st1) @ v_samples (videoTrack st2))
                          = [0, 40]
                      \<and> map vs_dts (v_samples (videoTrack st')) = [40]
                      \<and> reset_warnings st' = [UnsupportedCodecId 3]))"
    by code_simp
  then show ?thesis
    by (auto split: sum.splits)
qed

lemma reset_after_first_call_drops_parameter_sets:
  "\<exists>st1 st2 st'.
     demux stub_codecs (flv_header 4 @ hevc_inter_tag) False True sei_in_vps_demuxer = Inr st1
     \<and> demux stub_codecs hevc_inter_tag False True st1 = Inr st2
     \<and> demux stub_codecs ((flv_header 4 @ hevc_inter_tag) @ hevc_inter_tag) False True
           sei_in_vps_demuxer = Inr st'
     \<and> logged st' = []
     \<and> length (m_seiSamples (metadataTrack st1) @ m_seiSamples (metadataTrack st2)) = 1
     \<and> length (m_seiSamples (metadataTrack st')) = 2"
proof -
  have "case demux stub_codecs (flv_header 4 @ hevc_inter_tag) False True
               sei_in_vps_demuxer of
          Inl e \<Rightarrow> False
        | Inr st1 \<Rightarrow>
            (case demux stub_codecs hevc_inter_tag False True st1 of
               Inl e \<Rightarrow> False
             | Inr st2 \<Rightarrow>
                 (case demux stub_codecs ((flv_header 4 @ hevc_inter_tag) @ hevc_inter_tag)
                         False True sei_in_vps_demuxer of
                    Inl e \<Rightarrow> False
                  | Inr st' \<Rightarrow>
                      logged st' = []
                      \<and> length (m_seiSamples (metadataTrack st1)
                                  @ m_seiSamples (metadataTrack st2)) = 1
                      \<and> length (m_seiSamples (metadataTrack st')) = 2))"
    by code_simp
  then show ?thesis
    by (auto split: sum.splits)
qed

text \<open>
  C2, as amended. \<open>_checkAddMetaNalToUnits\<close> leaves the latch set exactly when the codec
  is HEVC, the latch was set and no unit has NAL type 32: the pass that prepends the
  parameter sets does not clear it, so a following HEVC unit list without a VPS gets
  \<open>vps[0]\<close>, \<open>sps[0]\<close>, \<open>pps[0]\<close> prepended again. An AVC tag or a unit list with a VPS
  clears the latch. The counterexample runs two HEVC NALU tags without a VPS through
  \<open>_parseVideo\<close>: the latch is still set after the first, and both samples start with the
  parameter sets.
\<close>

theorem hevc_latch_stays_set:
  fixes st :: "('s, 'a) FlvDemuxer"
  shows "needAddMetaBeforeKeyFrameNal (snd (checkAddMetaNalToUnits hevc units track st))
           = (hevc \<and> needAddMetaBeforeKeyFrameNal st \<and> 32 \<notin> set (map hevc_nal_type units))
       \<and> (needAddMetaBeforeKeyFrameNal st \<and> 32 \<notin> set (map hevc_nal_type units)
             \<and> 32 \<notin> set (map hevc_nal_type units')
           \<longrightarrow> fst (checkAddMetaNalToUnits True units' track'
                      (snd (checkAddMetaNalToUnits True units track st)))
                 = take 1 (v_vps track') @ take 1 (v_sps track') @ take 1 (v_pps track') @ units')"
  by (simp add: checkAddMetaNalToUnits_snd checkAddMetaNalToUnits_fst)

theorem hevc_latch_stays_set_witness:
  "needAddMetaBeforeKeyFrameNal
     (snd (checkAddMetaNalToUnits True [[0x02, 0x01]] (videoTrack hevc_demuxer) hevc_demuxer))
   \<and> fst (checkAddMetaNalToUnits True [[0x02, 0x02]] (videoTrack hevc_demuxer)
        (snd (checkAddMetaNalToUnits True [[0x02, 0x01]] (videoTrack hevc_demuxer) hevc_demuxer)))
     = [[0x40, 1], [0x42, 1], [0x44, 1], [0x02, 0x02]]"
proof -
  have e: "needAddMetaBeforeKeyFrameNal hevc_demuxer"
          "hevc_nal_type [0x02, 0x01] = 1" "hevc_nal_type [0x02, 0x02] = 1"
          "v_vps (videoTrack hevc_demuxer) = [[0x40, 1]]"
          "v_sps (videoTrack hevc_demuxer) = [[0x42, 1]]"
          "v_pps (videoTrack hevc_demuxer) = [[0x44, 1]]"
    by code_simp+
  show ?thesis
    using hevc_latch_stays_set[where hevc = True and units = "[[0x02, 0x01]]"
            and units' = "[[0x02, 0x02]]" and track = "videoTrack hevc_demuxer"
            and track' = "videoTrack hevc_demuxer" and st = hevc_demuxer]
    by (simp add: e)
qed

theorem hevc_reinsertion_counterexample:
  "needAddMetaBeforeKeyFrameNal
     (parseVideo stub_codecs [0x1C, 1, 0, 0, 0, 0x02, 0x01] 0 hevc_demuxer)
   \<and> map vs_units (v_samples (videoTrack
       (parseVideo stub_codecs [0x2C, 1, 0, 0, 0, 0x02, 0x02] 40
          (parseVideo stub_codecs [0x1C, 1, 0, 0, 0, 0x02, 0x01] 0 hevc_demuxer))))
     = [[[0x40, 1], [0x42, 1], [0x44, 1], [0x02, 0x01]],
        [[0x40, 1], [0x42, 1], [0x44, 1], [0x02, 0x02]]]"
  by code_simp

text \<open>
  C3. For a NALU-payload video tag (at least 6 bytes, packet type 1): when the codec is HEVC,
  the latch \<open>needAddMetaBeforeKeyFrameNal\<close> is set and no parsed unit has NAL type 32, the
  unit list is \<open>vps[0]\<close>, \<open>sps[0]\<close>, \<open>pps[0]\<close> in that order (each dropped when its array is
  empty) followed by the parsed units in their order, and that list, when it is not empty,
  is the unit list of the sample appended for the tag; when the codec is AVC the unit list
  is the parsed one, unchanged.
\<close>

theorem hevc_parameter_set_insertion:
  fixes st :: "('s, 'a) FlvDemuxer" and K data dts
  defines "track \<equiv> videoTrack st"
  defines "units \<equiv> parseAvcC K (subarray_from data 5) (v_nalUnitSize track)"
  defines "inserted \<equiv> take 1 (v_vps track) @ take 1 (v_sps track) @ take 1 (v_pps track) @ units"
  defines "codecId \<equiv> js_and (u8 data 0) 0x0f"
  assumes "6 \<le> length data" and "u8 data 1 = 1"
  shows "(codecId = 12 \<and> needAddMetaBeforeKeyFrameNal st \<and> 32 \<notin> set (map hevc_nal_type units)
            \<longrightarrow> fst (checkAddMetaNalToUnits True units track st) = inserted
              \<and> (inserted \<noteq> [] \<longrightarrow>
                   (\<exists>s. v_samples (videoTrack (parseVideo K data dts st)) = v_samples track @ [s]
                       \<and> vs_units s = inserted)))
       \<and> (codecId = 7
            \<longrightarrow> fst (checkAddMetaNalToUnits False units track st) = units
              \<and> (units \<noteq> [] \<longrightarrow>
                   (\<exists>s. v_samples (videoTrack (parseVideo K data dts st)) = v_samples track @ [s]
                       \<and> vs_units s = units)))"
proof (intro conjI impI; (elim conjE)?)
  assume h: "codecId = 12" "needAddMetaBeforeKeyFrameNal st"
            "32 \<notin> set (map hevc_nal_type units)"
  show f: "fst (checkAddMetaNalToUnits True units track st) = inserted"
    using h by (simp add: checkAddMetaNalToUnits_fst inserted_def)
  assume ne: "inserted \<noteq> []"
  let ?st = "st\<lparr>videoTrack := track\<lparr>v_codecType := Some HEVC\<rparr>\<rparr>"
  have p: "parseVideo K data dts st =
             parseNALUs K True (js_shr (js_and (u8 data 0) 0xf0) 4) data dts (video_cts data) ?st"
    using parseVideo_nalu[of data K dts st] assms(5,6) h(1)
    by (simp add: codecId_def track_def)
  have u: "fst (checkAddMetaNalToUnits True
             (parseAvcC K (subarray_from data 5) (v_nalUnitSize (videoTrack ?st)))
             (videoTrack ?st) ?st) = inserted"
    using h by (simp add: checkAddMetaNalToUnits_fst inserted_def units_def track_def)
  show "\<exists>s. v_samples (videoTrack (parseVideo K data dts st)) = v_samples track @ [s]
            \<and> vs_units s = inserted"
    using parseNALUs_cases[where K = K and isHevc = True and data = data and dts = dts
            and frameType = "js_shr (js_and (u8 data 0) 0xf0) 4" and cts = "video_cts data"
            and st = ?st] ne
    unfolding u p[symmetric] by (auto simp: track_def)
next
  assume h: "codecId = 7"
  show "fst (checkAddMetaNalToUnits False units track st) = units"
    by (simp add: checkAddMetaNalToUnits_fst)
  assume ne: "units \<noteq> []"
  let ?st = "st\<lparr>videoTrack := track\<lparr>v_codecType := Some AVC\<rparr>\<rparr>"
  have p: "parseVideo K data dts st =
             parseNALUs K False (js_shr (js_and (u8 data 0) 0xf0) 4) data dts (video_cts data) ?st"
    using parseVideo_nalu[of data K dts st] assms(5,6) h(1)
    by (simp add: codecId_def track_def)
  have u: "fst (checkAddMetaNalToUnits False
             (parseAvcC K (subarray_from data 5) (v_nalUnitSize (videoTrack ?st)))
             (videoTrack ?st) ?st) = units"
    by (simp add: checkAddMetaNalToUnits_fst units_def track_def)
  show "\<exists>s. v_samples (videoTrack (parseVideo K data dts st)) = v_samples track @ [s]
            \<and> vs_units s = units"
    using parseNALUs_cases[where K = K and isHevc = False and data = data and dts = dts
            and frameType = "js_shr (js_and (u8 data 0) 0xf0) 4" and cts = "video_cts data"
            and st = ?st] ne
    unfolding u p[symmetric] by (auto simp: track_def)
qed

theorem hevc_parameter_set_insertion_witness:
  "map vs_units (v_samples (videoTrack
       (parseVideo stub_codecs [0x1C, 1, 0, 0, 0, 0x02, 0x01] 0 hevc_demuxer)))
     = [[[0x40, 1], [0x42, 1], [0x44, 1], [0x02, 0x01]]]
   \<and> map vs_units (v_samples (videoTrack
       (parseVideo stub_codecs [0x17, 1, 0, 0, 0, 0x65] 0 hevc_demuxer)))
     = [[[0x65]]]"
proof -
  let ?h = "[0x1C, 1, 0, 0, 0, 0x02, 0x01] :: bytes"
  let ?a = "[0x17, 1, 0, 0, 0, 0x65] :: bytes"
  have e: "js_and (u8 ?h 0) 0x0f = 12" "js_and (u8 ?a 0) 0x0f = 7" "u8 ?h 1 = 1" "u8 ?a 1 = 1"
          "needAddMetaBeforeKeyFrameNal hevc_demuxer"
          "parseAvcC stub_codecs (subarray_from ?h 5) (v_nalUnitSize (videoTrack hevc_demuxer))
             = [[0x02, 0x01]]"
          "parseAvcC stub_codecs (subarray_from ?a 5) (v_nalUnitSize (videoTrack hevc_demuxer))
             = [[0x65]]"
          "hevc_nal_type [0x02, 0x01] = 1"
          "v_vps (videoTrack hevc_demuxer) = [[0x40, 1]]"
          "v_sps (videoTrack hevc_demuxer) = [[0x42, 1]]"
          "v_pps (videoTrack hevc_demuxer) = [[0x44, 1]]"
          "v_samples (videoTrack hevc_demuxer) = []"
    by code_simp+
  show ?thesis
    using hevc_parameter_set_insertion[where data = ?h and K = stub_codecs
            and st = hevc_demuxer and dts = 0]
          hevc_parameter_set_insertion[where data = ?a and K = stub_codecs
            and st = hevc_demuxer and dts = 0]
    unfolding e by (auto simp: e)
qed

text \<open>
  C4. A tag either appends one video sample, whose \<open>gopId\<close> is the counter after the
  tag, the counter being one more than before when the sample is a keyframe and unchanged
  when it is not; or it leaves the counter alone and the video samples as they were or
  reset. The preprocessing, the end of \<open>demux\<close> and a warning leave the counter alone. So
  over any sequence of calls on one demuxer the \<open>gopId\<close>s of the returned video samples,
  in order, never decrease, and lie between the counter before the first call and the
  counter after the last. (Counter 0 and a keyframe first: \<open>gopId = 1\<close>, as the instance after the theorem shows.)
\<close>

theorem gop_numbering:
  fixes st st0 :: "('s, 'a) FlvDemuxer" and K tagType body timestamp calls
  defines "st' \<equiv> dispatch_tag K tagType body timestamp st"
  defines "run \<equiv> demux_calls K calls st0"
  shows "((\<exists>s. v_samples (videoTrack st') = v_samples (videoTrack st) @ [s]
              \<and> vs_gopId s = gopId st'
              \<and> gopId st' = gopId st + (if vs_keyframe s then 1 else 0))
          \<or> (gopId st' = gopId st
               \<and> (v_samples (videoTrack st') = v_samples (videoTrack st)
                    \<or> v_samples (videoTrack st') = [])))
       \<and> gopId (snd (demux_prepare data discontinuity contiguous st)) = gopId st
       \<and> gopId (demux_finish data offset st) = gopId st
       \<and> gopId (warn w st) = gopId st
       \<and> sorted (map vs_gopId (fst run))
       \<and> (\<forall>s \<in> set (fst run). gopId st0 \<le> vs_gopId s \<and> vs_gopId s \<le> gopId (snd run))
       \<and> gopId st0 \<le> gopId (snd run)"
  unfolding st'_def run_def
  using dispatch_tag_gop[where K = K and tagType = tagType and body = body
          and timestamp = timestamp and st = st]
        demux_calls_gop[of K calls st0]
        demux_prepare_gop(1)[of data discontinuity contiguous st]
        demux_finish_frame(2)[of data offset st]
  by (simp add: warn_def)

theorem gop_numbering_witness:
  "map vs_gopId (v_samples (videoTrack
      (dispatch_tag stub_codecs 9 [0x17, 1, 0, 0, 0, 0x65] 0 new_FlvDemuxer))) = [1]
   \<and> map vs_gopId (fst (demux_calls stub_codecs
        [(flv_header 5 @ avc_keyframe_tag @ avc_inter_tag, False, True),
         (avc_keyframe_tag, False, True)] new_FlvDemuxer)) = [1, 1, 2]
   \<and> gopId (snd (demux_calls stub_codecs
        [(flv_header 5 @ avc_keyframe_tag @ avc_inter_tag, False, True),
         (avc_keyframe_tag, False, True)] new_FlvDemuxer)) = 2"
proof -
  have e: "map vs_gopId (v_samples (videoTrack
      (dispatch_tag stub_codecs 9 [0x17, 1, 0, 0, 0, 0x65] 0 new_FlvDemuxer))) = [1]"
    "map vs_gopId (fst (demux_calls stub_codecs
        [(flv_header 5 @ avc_keyframe_tag @ avc_inter_tag, False, True),
         (avc_keyframe_tag, False, True)] new_FlvDemuxer)) = [1, 1, 2]"
    "gopId (snd (demux_calls stub_codecs
        [(flv_header 5 @ avc_keyframe_tag @ avc_inter_tag, False, True),
         (avc_keyframe_tag, False, True)] new_FlvDemuxer)) = 2"
    by code_simp+
  show ?thesis
    using gop_numbering[where K = stub_codecs and tagType = 9
            and body = "[0x17, 1, 0, 0, 0, 0x65]" and timestamp = 0 and st = new_FlvDemuxer
            and calls = "[(flv_header 5 @ avc_keyframe_tag @ avc_inter_tag, False, True),
                          (avc_keyframe_tag, False, True)]"
            and ?st0.0 = new_FlvDemuxer and w = "InvalidTagType 0" and data = "[]"
            and discontinuity = False and contiguous = True and offset = 0]
    by (simp add: e del: demux_calls.simps)
qed

text \<open>
  C5. For every tag the main loop parses (the loop's guard holds at its offset), the
  timestamp is the extension byte at \<open>offset + 7\<close> times \<open>2 ^ 24\<close> plus the 24-bit big-endian
  value at \<open>offset + 4 .. offset + 6\<close>; it is never negative and below \<open>2 ^ 32\<close>, and an
  extension byte of \<open>0x80\<close> or more gives a timestamp of at least \<open>2 ^ 31\<close> (no sign
  extension).
\<close>

theorem timestamp_reconstruction:
  assumes "offset + 15 < length data"
  shows "tag_timestamp data offset =
           uint (data ! (offset + 7)) * 2 ^ 24
             + (uint (data ! (offset + 4)) * 2 ^ 16 + uint (data ! (offset + 5)) * 2 ^ 8
                  + uint (data ! (offset + 6)))
         \<and> 0 \<le> tag_timestamp data offset \<and> tag_timestamp data offset < 2 ^ 32
         \<and> (0x80 \<le> uint (data ! (offset + 7)) \<longrightarrow> 2 ^ 31 \<le> tag_timestamp data offset)"
proof -
  have b: "u8 data (offset + 7) = uint (data ! (offset + 7))"
          "u8 data (offset + 4) = uint (data ! (offset + 4))"
          "u8 data (offset + 5) = uint (data ! (offset + 5))"
          "u8 data (offset + 6) = uint (data ! (offset + 6))"
    using assms by (simp_all add: u8_in_range)
  have r: "0 \<le> u8 data (offset + 7) \<and> u8 data (offset + 7) < 256"
          "0 \<le> u8 data (offset + 4) \<and> u8 data (offset + 4) < 256"
          "0 \<le> u8 data (offset + 5) \<and> u8 data (offset + 5) < 256"
          "0 \<le> u8 data (offset + 6) \<and> u8 data (offset + 6) < 256"
    by (rule u8_range)+
  have eq: "tag_timestamp data offset =
           uint (data ! (offset + 7)) * 2 ^ 24
             + (uint (data ! (offset + 4)) * 2 ^ 16 + uint (data ! (offset + 5)) * 2 ^ 8
                  + uint (data ! (offset + 6)))"
    unfolding tag_timestamp_eq b by simp
  have lo: "u8 data (offset + 7) * 16777216 \<le> tag_timestamp data offset"
    using r unfolding tag_timestamp_eq by linarith
  have rng: "0 \<le> tag_timestamp data offset \<and> tag_timestamp data offset < 2 ^ 32"
    using r unfolding tag_timestamp_eq by simp
  have hi: "0x80 \<le> uint (data ! (offset + 7)) \<longrightarrow> 2 ^ 31 \<le> tag_timestamp data offset"
    using lo unfolding b by auto
  from eq rng hi show ?thesis by blast
qed

theorem timestamp_reconstruction_witness:
  "tag_timestamp [9, 0, 0, 1, 0x12, 0x34, 0x56, 0x80, 0, 0, 0, 0, 0, 0, 0, 0, 0] 0 = 0x80123456"
  using timestamp_reconstruction
          [of 0 "[9, 0, 0, 1, 0x12, 0x34, 0x56, 0x80, 0, 0, 0, 0, 0, 0, 0, 0, 0]"]
  by simp

text \<open>
  C6. For a video tag body of at least 6 bytes, \<open>cts\<close> is the two's-complement reading of
  the 24-bit big-endian field at \<open>body[2..5]\<close> (so \<open>0xFFFFFE\<close> gives \<open>- 2\<close>, the
  instance after the theorem), and a sample that \<open>_parseVideo\<close> appends for the tag has \<open>dts\<close> the tag's
  timestamp and \<open>pts = dts + cts\<close>.
\<close>

theorem composition_time_sign:
  assumes "6 \<le> length data"
  shows "video_cts data =
           (let v = uint (data ! 2) * 2 ^ 16 + uint (data ! 3) * 2 ^ 8 + uint (data ! 4)
            in if v < 2 ^ 23 then v else v - 2 ^ 24)
         \<and> (\<forall>s. v_samples (videoTrack (parseVideo K data dts st))
                   = v_samples (videoTrack st) @ [s]
                \<longrightarrow> vs_dts s = dts \<and> vs_pts s = vs_dts s + video_cts data)"
proof -
  have b: "u8 data 2 = uint (data ! 2)" "u8 data 3 = uint (data ! 3)"
          "u8 data 4 = uint (data ! 4)"
    using assms by (simp_all add: u8_in_range)
  have 1: "video_cts data =
           (let v = uint (data ! 2) * 2 ^ 16 + uint (data ! 3) * 2 ^ 8 + uint (data ! 4)
            in if v < 2 ^ 23 then v else v - 2 ^ 24)"
    unfolding video_cts_eq b by simp
  have 2: "vs_dts s = dts \<and> vs_pts s = vs_dts s + video_cts data"
    if "v_samples (videoTrack (parseVideo K data dts st)) = v_samples (videoTrack st) @ [s]"
    for s
    using parseVideo_cases[where K = K and data = data and dts = dts and st = st] that
    by auto
  from 1 2 show ?thesis by blast
qed

theorem composition_time_sign_witness:
  "video_cts [0x17, 1, 0xFF, 0xFF, 0xFE, 0x65] = - 2
   \<and> v_samples (videoTrack (parseVideo stub_codecs [0x17, 1, 0xFF, 0xFF, 0xFE, 0x65] 1000
         new_FlvDemuxer))
     = [\<lparr>vs_pts = 998, vs_dts = 1000, vs_units = [[0x65]], vs_keyframe = True, vs_gopId = 1\<rparr>]"
proof -
  let ?d = "[0x17, 1, 0xFF, 0xFF, 0xFE, 0x65] :: bytes"
  have c: "video_cts ?d = - 2"
    using composition_time_sign[of ?d stub_codecs 1000 new_FlvDemuxer] by simp
  have s: "v_samples (videoTrack (parseVideo stub_codecs ?d 1000 new_FlvDemuxer))
     = [\<lparr>vs_pts = 998, vs_dts = 1000, vs_units = [[0x65]], vs_keyframe = True, vs_gopId = 1\<rparr>]"
    by code_simp
  from c s show ?thesis by simp
qed

text \<open>
  C7. The code at the input where it parts from the claim: after the 13 bytes of the
  header, a script tag with \<open>dataSize = 0\<close> whose previous-tag-size field ends at the last
  byte of the buffer. \<open>cursor + 15 \<le> len(data)\<close> and \<open>cursor + 11 + dataSize + 4 \<le> len(data)\<close>
  hold, yet the loop's guard \<open>offset + 15 < dataLen\<close> fails: no script sample is appended
  (dispatching the tag would append one) and the 15 bytes are kept in \<open>remainingData\<close>.
\<close>

theorem zero_size_tag_at_buffer_end:
  "13 + 15 \<le> length (flv_header 5 @ empty_script_tag)
   \<and> 13 + 11 + nat (tag_dataSize (flv_header 5 @ empty_script_tag) 13) + 4
        \<le> length (flv_header 5 @ empty_script_tag)
   \<and> u8 (flv_header 5 @ empty_script_tag) 13 = 18
   \<and> (\<exists>st'. demux stub_codecs (flv_header 5 @ empty_script_tag) False True new_FlvDemuxer
               = Inr st'
          \<and> m_flvScriptSamples (metadataTrack st') = []
          \<and> remainingData st' = Some empty_script_tag)
   \<and> m_flvScriptSamples (metadataTrack
        (parseScript stub_codecs [] 0 new_FlvDemuxer)) = [([], 0)]"
proof -
  let ?d = "flv_header 5 @ empty_script_tag"
  have 1: "13 + 15 \<le> length ?d"
          "13 + 11 + nat (tag_dataSize ?d 13) + 4 \<le> length ?d" "u8 ?d 13 = 18"
    by code_simp+
  have 2: "case demux stub_codecs ?d False True new_FlvDemuxer of
             Inl e \<Rightarrow> False
           | Inr st' \<Rightarrow> m_flvScriptSamples (metadataTrack st') = []
                         \<and> remainingData st' = Some empty_script_tag"
    by code_simp
  have 3: "m_flvScriptSamples (metadataTrack
        (parseScript stub_codecs [] 0 new_FlvDemuxer)) = [([], 0)]"
    by code_simp
  from 2 have "\<exists>st'. demux stub_codecs ?d False True new_FlvDemuxer = Inr st'
          \<and> m_flvScriptSamples (metadataTrack st') = []
          \<and> remainingData st' = Some empty_script_tag"
    by (cases "demux stub_codecs ?d False True new_FlvDemuxer") simp_all
  with 1 3 show ?thesis by blast
qed

text \<open>
  Only the tag with no body is affected: a complete tag with a body that ends at the last
  byte of the buffer is dispatched, and the loop goes on behind it.
\<close>

lemma nonempty_tag_at_buffer_end:
  assumes "offset + 15 \<le> length data"
      and "offset + 11 + nat (tag_dataSize data offset) + 4 \<le> length data"
      and "0 < tag_dataSize data offset"
  shows "tag_loop K data offset st =
           tag_loop K data (offset + 15 + nat (tag_dataSize data offset))
             (after_tag K data offset st)"
  using assms by (intro tag_loop_step) (simp add: tag_complete_def)



text \<open>
  C9, as amended. For a video tag in the main loop whose body has at least 6 bytes and
  whose codecId is neither 7 nor 12: \<open>_parseVideo\<close> resets the video track and logs the
  warning, the track holds no sample afterwards, and the loop goes on with the next tag
  (after the check of the previous-tag-size field); nothing is thrown. The counterexample
  is a body of one byte with codecId 3: \<open>_parseVideo\<close> returns at once, with no reset and no
  warning.
\<close>

theorem unsupported_codec_skipped:
  fixes st :: "('s, 'a) FlvDemuxer" and K data offset
  defines "dataSize \<equiv> nat (tag_dataSize data offset)"
  defines "body \<equiv> subarray data (offset + 11) (offset + 11 + dataSize)"
  defines "codecId \<equiv> js_and (u8 body 0) 0x0f"
  defines "st1 \<equiv> warn (UnsupportedCodecId codecId)
                   (st\<lparr>videoTrack := VideoTrack_reset (videoTrack st)\<rparr>)"
  defines "prevTagSize \<equiv> readBig32 data (offset + 11 + dataSize)"
  assumes "offset + 15 < length data" and "offset + 15 + dataSize \<le> length data"
      and "u8 data offset = 9" and "6 \<le> length body"
      and "codecId \<noteq> 7" and "codecId \<noteq> 12"
  shows "parseVideo K body (tag_timestamp data offset) st = st1
       \<and> v_samples (videoTrack st1) = []
       \<and> logged st1 = logged st @ [UnsupportedCodecId codecId]
       \<and> tag_loop K data offset st =
           tag_loop K data (offset + 11 + dataSize + 4)
             (if prevTagSize \<noteq> 11 + int dataSize
              then warn (InvalidPrevTagSize prevTagSize (11 + int dataSize)) st1 else st1)"
proof -
  have p: "parseVideo K body (tag_timestamp data offset) st = st1"
    using assms(9-11) unfolding st1_def codecId_def
    by (simp add: parseVideo_def Let_def)
  have s: "v_samples (videoTrack st1) = []"
    by (simp add: st1_def warn_def VideoTrack_reset_def new_VideoTrack_def)
  have l: "logged st1 = logged st @ [UnsupportedCodecId codecId]"
    by (simp add: st1_def warn_def)
  have d: "dispatch_tag K (u8 data offset) body (tag_timestamp data offset) st = st1"
    using assms(8) p by (simp add: dispatch_tag_def)
  have t: "tag_loop K data offset st =
           tag_loop K data (offset + 11 + dataSize + 4)
             (if prevTagSize \<noteq> 11 + int dataSize
              then warn (InvalidPrevTagSize prevTagSize (11 + int dataSize)) st1 else st1)"
    using assms(6,7) d
    by (subst tag_loop.simps)
       (simp add: Let_def dataSize_def[symmetric] body_def[symmetric] prevTagSize_def[symmetric]
         )
  from p s l t show ?thesis by blast
qed

theorem unsupported_codec_skipped_witness:
  "tag_loop stub_codecs unsupported_codec_stream 0 hevc_demuxer
     = tag_loop stub_codecs unsupported_codec_stream 21
         (warn (UnsupportedCodecId 3)
            (hevc_demuxer\<lparr>videoTrack := VideoTrack_reset (videoTrack hevc_demuxer)\<rparr>))
   \<and> m_flvScriptSamples (metadataTrack
        (snd (tag_loop stub_codecs unsupported_codec_stream 0 hevc_demuxer))) = [([0x02], 0)]"
proof -
  let ?d = unsupported_codec_stream
  have e: "nat (tag_dataSize ?d 0) = 6" "u8 ?d 0 = 9" "length ?d = 38"
          "subarray ?d 11 17 = [0x13, 1, 0, 0, 0, 0x65]"
          "js_and (u8 [0x13, 1, 0, 0, 0, 0x65] 0) 0x0f = 3"
          "readBig32 ?d 17 = 17"
    by code_simp+
  have 1: "tag_loop stub_codecs ?d 0 hevc_demuxer
     = tag_loop stub_codecs ?d 21
         (warn (UnsupportedCodecId 3)
            (hevc_demuxer\<lparr>videoTrack := VideoTrack_reset (videoTrack hevc_demuxer)\<rparr>))"
    using unsupported_codec_skipped[where data = ?d and offset = 0 and K = stub_codecs
            and st = hevc_demuxer]
    by (simp add: e)
  have 2: "m_flvScriptSamples (metadataTrack
        (snd (tag_loop stub_codecs ?d 0 hevc_demuxer))) = [([0x02], 0)]"
    by code_simp
  from 1 2 show ?thesis by simp
qed

theorem short_video_tag_counterexample:
  "js_and (u8 [0x13] 0) 0x0f = 3
   \<and> parseVideo stub_codecs [0x13] 0 hevc_demuxer = hevc_demuxer
   \<and> logged hevc_demuxer = []
   \<and> videoTrack hevc_demuxer \<noteq> VideoTrack_reset (videoTrack hevc_demuxer)"
  by code_simp

text \<open>
  C10. \<open>_parseAudio\<close> on an empty body changes nothing: the demuxer it answers is the
  demuxer it was given (no sample, no warning, no reset, no audio track field written).
\<close>

theorem parseAudio_empty_body: "parseAudio K [] pts st = st"
  by (simp add: parseAudio_def)

end
